theory Spec2Isabelle
  imports Complex_Main "HOL-Library.AList"
begin

section \<open>Marker gap filling and recovery of pyc3dserver\<close>

text \<open>
  A shallow embedding of the five marker repair functions of
  \<^verbatim>\<open>pyc3dserver.py\<close> (\<^verbatim>\<open>recover_marker_relative\<close>,
  \<^verbatim>\<open>recover_marker_rigidbody\<close>, \<^verbatim>\<open>fill_marker_gap_rigidbody\<close>,
  \<^verbatim>\<open>fill_marker_gap_pattern\<close>, \<^verbatim>\<open>fill_marker_gap_interp\<close>) and of the
  accessors they call.

  Conventions of the embedding:
  \<^item> numbers of the source's float32 arrays are real numbers: rounding, NaN and
    infinities are not modelled, every arithmetic identity below is one of exact arithmetic;
  \<^item> a NumPy array of shape (N, 3) is a list of triples, a boolean mask a list of
    booleans, an index array a list of naturals;
  \<^item> a Python exception is the left injection of a sum type;
  \<^item> the COM object \<^verbatim>\<open>itf\<close> is a record holding what the accessors read from it; what
    the update functions send to it is returned as a list of writes;
  \<^item> the library routines \<^verbatim>\<open>np.linalg.svd\<close> and
    \<^verbatim>\<open>InterpolatedUnivariateSpline\<close> are parameters of the functions using them.
\<close>

subsection \<open>Vectors\<close>

type_synonym vec3 = "real \<times> real \<times> real"

fun vadd :: "vec3 \<Rightarrow> vec3 \<Rightarrow> vec3" where
  "vadd (a, b, c) (d, e, f) = (a + d, b + e, c + f)"

fun vsub :: "vec3 \<Rightarrow> vec3 \<Rightarrow> vec3" where
  "vsub (a, b, c) (d, e, f) = (a - d, b - e, c - f)"

fun smul :: "vec3 \<Rightarrow> real \<Rightarrow> vec3" where
  "smul (a, b, c) k = (a * k, b * k, c * k)"

fun sdiv :: "vec3 \<Rightarrow> real \<Rightarrow> vec3" where
  "sdiv (a, b, c) k = (a / k, b / k, c / k)"

definition zero3 :: vec3 where
  "zero3 = (0, 0, 0)"

fun dot :: "vec3 \<Rightarrow> vec3 \<Rightarrow> real" where
  "dot (a, b, c) (d, e, f) = a * d + b * e + c * f"


text \<open>\<^verbatim>\<open>np.linalg.norm\<close> of one row.\<close>

fun norm3 :: "vec3 \<Rightarrow> real" where
  "norm3 (a, b, c) = sqrt (a * a + b * b + c * c)"

text \<open>A 3 by 3 matrix is the triple of its rows.\<close>

type_synonym mat3 = "vec3 \<times> vec3 \<times> vec3"

fun col0 :: "mat3 \<Rightarrow> vec3" where
  "col0 ((a, b, c), (d, e, f), (g, h, i)) = (a, d, g)"

fun col1 :: "mat3 \<Rightarrow> vec3" where
  "col1 ((a, b, c), (d, e, f), (g, h, i)) = (b, e, h)"

fun col2 :: "mat3 \<Rightarrow> vec3" where
  "col2 ((a, b, c), (d, e, f), (g, h, i)) = (c, f, i)"


text \<open>\<^verbatim>\<open>np.dot\<close> of a matrix and a vector, and of two matrices.\<close>

fun mat_vec :: "mat3 \<Rightarrow> vec3 \<Rightarrow> vec3" where
  "mat_vec (r0, r1, r2) v = (dot r0 v, dot r1 v, dot r2 v)"

fun mat_mul :: "mat3 \<Rightarrow> mat3 \<Rightarrow> mat3" where
  "mat_mul (r0, r1, r2) m =
     ((dot r0 (col0 m), dot r0 (col1 m), dot r0 (col2 m)),
      (dot r1 (col0 m), dot r1 (col1 m), dot r1 (col2 m)),
      (dot r2 (col0 m), dot r2 (col1 m), dot r2 (col2 m)))"

text \<open>\<^verbatim>\<open>np.linalg.det\<close>\<close>

fun det3 :: "mat3 \<Rightarrow> real" where
  "det3 ((a, b, c), (d, e, f), (g, h, i)) =
     a * (e * i - f * h) - b * (d * i - f * g) + c * (d * h - e * g)"

text \<open>\<^verbatim>\<open>np.diag\<close> of a list of three numbers.\<close>

fun diag3 :: "vec3 \<Rightarrow> mat3" where
  "diag3 (a, b, c) = ((a, 0, 0), (0, b, 0), (0, 0, c))"

definition identity3 :: mat3 where
  "identity3 = diag3 (1, 1, 1)"

text \<open>\<^verbatim>\<open>np.mean(A, axis=0)\<close> of an array of shape (n, 3).\<close>

definition mean_rows :: "vec3 list \<Rightarrow> vec3" where
  "mean_rows A = sdiv (foldr vadd A zero3) (real (length A))"

text \<open>The outer product of two vectors, and the sum of a list of matrices.\<close>

fun outer :: "vec3 \<Rightarrow> vec3 \<Rightarrow> mat3" where
  "outer (a, b, c) v = (smul v a, smul v b, smul v c)"

fun madd :: "mat3 \<Rightarrow> mat3 \<Rightarrow> mat3" where
  "madd (r0, r1, r2) (s0, s1, s2) = (vadd r0 s0, vadd r1 s1, vadd r2 s2)"

subsection \<open>Exceptions and NumPy primitives\<close>

datatype error = IndexError | TypeError | ComError | SplineError

text \<open>Indexing a one-dimensional array by an integer: a negative index counts from the
  end, an index out of range raises \<^verbatim>\<open>IndexError\<close>.\<close>

definition np_get :: "'a list \<Rightarrow> int \<Rightarrow> error + 'a" where
  "np_get xs i =
     (if 0 \<le> i \<and> i < int (length xs) then Inr (xs ! nat i)
      else if i < 0 \<and> - int (length xs) \<le> i then Inr (xs ! nat (int (length xs) + i))
      else Inl IndexError)"

text \<open>\<^verbatim>\<open>np.isclose(a, b)\<close> with its default tolerances
  \<^verbatim>\<open>rtol=1e-05\<close>, \<^verbatim>\<open>atol=1e-08\<close>.\<close>

definition isclose :: "real \<Rightarrow> real \<Rightarrow> bool" where
  "isclose a b \<longleftrightarrow> \<bar>a - b\<bar> \<le> 1 / 10 ^ 8 + (1 / 10 ^ 5) * \<bar>b\<bar>"

text \<open>\<^verbatim>\<open>np.where(np.isclose(resid, -1), False, True)\<close>\<close>

definition valid_mask :: "real list \<Rightarrow> bool list" where
  "valid_mask rs = map (\<lambda>r. if isclose r (- 1) then False else True) rs"

definition count_nonzero :: "bool list \<Rightarrow> nat" where
  "count_nonzero m = length (filter (\<lambda>b. b) m)"

definition np_any :: "bool list \<Rightarrow> bool" where
  "np_any m = list_ex (\<lambda>b. b) m"

definition logical_and :: "bool list \<Rightarrow> bool list \<Rightarrow> bool list" where
  "logical_and m1 m2 = map (\<lambda>(a, b). a \<and> b) (zip m1 m2)"

definition logical_not :: "bool list \<Rightarrow> bool list" where
  "logical_not m = map Not m"

text \<open>\<^verbatim>\<open>np.where(mask)[0]\<close>: the indices of the true entries, ascending.\<close>

definition np_where :: "bool list \<Rightarrow> nat list" where
  "np_where m = filter (\<lambda>i. m ! i) [0..<length m]"

text \<open>\<^verbatim>\<open>np.searchsorted(a, v)\<close> on an ascending array: the first index whose entry is
  not below \<^verbatim>\<open>v\<close>.\<close>

definition searchsorted :: "nat list \<Rightarrow> nat \<Rightarrow> nat" where
  "searchsorted a v = length (takeWhile (\<lambda>x. x < v) a)"

text \<open>The slice \<^verbatim>\<open>a[i:j]\<close> for indices that are not negative.\<close>

definition np_slice :: "'a list \<Rightarrow> nat \<Rightarrow> nat \<Rightarrow> 'a list" where
  "np_slice xs i j = take (j - i) (drop i xs)"

text \<open>A \<^verbatim>\<open>for\<close> loop whose body may raise.\<close>

fun for_loop :: "('a \<Rightarrow> 's \<Rightarrow> error + 's) \<Rightarrow> 'a list \<Rightarrow> 's \<Rightarrow> error + 's" where
  "for_loop body [] s = Inr s"
| "for_loop body (x # xs) s =
     (case body x s of Inl e \<Rightarrow> Inl e | Inr s' \<Rightarrow> for_loop body xs s')"

subsection \<open>The C3D file behind the COM interface\<close>

text \<open>
  \<^verbatim>\<open>labels\<close> holds the entries of POINT:LABELS that are in use, \<^verbatim>\<open>point_xyz\<close> and
  \<^verbatim>\<open>point_resid\<close> what \<^verbatim>\<open>GetPointDataEx\<close> and \<^verbatim>\<open>GetPointResidualEx\<close> return for
  a marker index and an absolute frame number.
\<close>

record c3d =
  first_frame :: int
  last_frame :: int
  labels :: "string list"
  point_xyz :: "nat \<Rightarrow> int \<Rightarrow> vec3"
  point_resid :: "nat \<Rightarrow> int \<Rightarrow> real"

definition get_first_frame :: "c3d \<Rightarrow> int" where
  "get_first_frame itf = first_frame itf"

definition get_last_frame :: "c3d \<Rightarrow> int" where
  "get_last_frame itf = last_frame itf"

definition get_num_frames :: "c3d \<Rightarrow> int" where
  "get_num_frames itf = get_last_frame itf - get_first_frame itf + 1"

fun label_index :: "string list \<Rightarrow> string \<Rightarrow> nat \<Rightarrow> int" where
  "label_index [] mkr_name i = - 1"
| "label_index (l # ls) mkr_name i =
     (if l = mkr_name then int i else label_index ls mkr_name (Suc i))"

text \<open>\<^verbatim>\<open>None\<close> is Python's \<^verbatim>\<open>None\<close> (no label in use), \<^verbatim>\<open>Some (-1)\<close> an unknown name.\<close>

definition get_marker_index :: "c3d \<Rightarrow> string \<Rightarrow> int option" where
  "get_marker_index itf mkr_name =
     (if labels itf = [] then None else Some (label_index (labels itf) mkr_name 0))"

text \<open>\<^verbatim>\<open>check_frame_range_valid(itf, None, None)\<close>\<close>

definition check_frame_range_valid :: "c3d \<Rightarrow> bool \<times> int \<times> int" where
  "check_frame_range_valid itf =
     (let start_fr = get_first_frame itf; end_fr = get_last_frame itf
      in if \<not> start_fr < end_fr then (False, 0, 0) else (True, start_fr, end_fr))"

type_synonym mkr_data = "vec3 list \<times> real list"

text \<open>\<^verbatim>\<open>get_marker_data(itf, mkr_name, blocked_nan=False)\<close>: the columns 0:3 and the
  column 3 of the array it returns, or Python's \<^verbatim>\<open>None\<close>.\<close>

definition get_marker_data :: "c3d \<Rightarrow> string \<Rightarrow> error + mkr_data option" where
  "get_marker_data itf mkr_name =
     (let mkr_idx = get_marker_index itf mkr_name
      in if mkr_idx = Some (- 1) then Inr None
         else case check_frame_range_valid itf of
           (fr_check, start_fr, end_fr) \<Rightarrow>
             if \<not> fr_check then Inr None
             else (case mkr_idx of
                     None \<Rightarrow> Inl ComError
                   | Some i \<Rightarrow>
                       Inr (Some (map (point_xyz itf (nat i)) [start_fr..end_fr],
                                  map (point_resid itf (nat i)) [start_fr..end_fr]))))"

datatype store_write = PosWrite nat "vec3 list" | ResidWrite nat "real list"

text \<open>\<^verbatim>\<open>update_marker_pos\<close> and \<^verbatim>\<open>update_marker_residual\<close>: the array handed to
  \<^verbatim>\<open>SetPointDataEx\<close> for the marker, when the checks before the call pass.\<close>

definition update_marker_pos :: "c3d \<Rightarrow> string \<Rightarrow> vec3 list \<Rightarrow> error + store_write list" where
  "update_marker_pos itf mkr_name mkr_coords =
     (let mkr_idx = get_marker_index itf mkr_name
      in if mkr_idx = Some (- 1) then Inr []
         else if int (length mkr_coords) \<noteq> get_num_frames itf then Inr []
         else (case mkr_idx of
                 None \<Rightarrow> Inl ComError
               | Some i \<Rightarrow> Inr [PosWrite (nat i) mkr_coords]))"

definition update_marker_residual :: "c3d \<Rightarrow> string \<Rightarrow> real list \<Rightarrow> error + store_write list" where
  "update_marker_residual itf mkr_name mkr_resid =
     (let mkr_idx = get_marker_index itf mkr_name
      in if mkr_idx = Some (- 1) then Inr []
         else if int (length mkr_resid) \<noteq> get_num_frames itf then Inr []
         else (case mkr_idx of
                 None \<Rightarrow> Inl ComError
               | Some i \<Rightarrow> Inr [ResidWrite (nat i) mkr_resid]))"

subsection \<open>What the gap filling functions share\<close>

type_synonym fill_state = "vec3 list \<times> real list \<times> bool"

type_synonym outcome = "bool \<times> nat \<times> store_write list"

text \<open>The bracket frames of \<^verbatim>\<open>fr\<close> in the ascending frame array \<^verbatim>\<open>frs\<close>, as
  \<^verbatim>\<open>fill_marker_gap_rigidbody\<close> and \<^verbatim>\<open>fill_marker_gap_pattern\<close> both select them.\<close>

definition np_get2 :: "nat list \<Rightarrow> int \<Rightarrow> int \<Rightarrow> error + (nat \<times> nat)" where
  "np_get2 frs i j =
     (case np_get frs i of
        Inl e \<Rightarrow> Inl e
      | Inr fr0 \<Rightarrow> (case np_get frs j of Inl e \<Rightarrow> Inl e | Inr fr1 \<Rightarrow> Inr (fr0, fr1)))"

definition brackets :: "nat list \<Rightarrow> nat \<Rightarrow> error + (nat \<times> nat)" where
  "brackets frs fr =
     (let search_idx = searchsorted frs fr
      in if search_idx = 0 then np_get2 frs 0 1
         else if search_idx \<ge> length frs
           then np_get2 frs (int (length frs) - 2) (int (length frs) - 1)
         else np_get2 frs (int search_idx - 1) (int search_idx))"

text \<open>\<^verbatim>\<open>(p1-p0)*np.float32(fr-fr0)/np.float32(fr1-fr0)+p0\<close>\<close>

definition lin_interp :: "vec3 \<Rightarrow> vec3 \<Rightarrow> nat \<Rightarrow> nat \<Rightarrow> nat \<Rightarrow> vec3" where
  "lin_interp p0 p1 fr0 fr1 fr =
     vadd (sdiv (smul (vsub p1 p0) (real (fr - fr0))) (real (fr1 - fr0))) p0"

text \<open>The end of the three gap filling functions: write back when a frame was filled.\<close>

definition write_back ::
  "c3d \<Rightarrow> string \<Rightarrow> nat \<Rightarrow> fill_state \<Rightarrow> error + outcome" where
  "write_back itf tgt_mkr_name n_tgt_mkr_valid_frs s =
     (case s of (tgt_mkr_coords, tgt_mkr_resid, b_updated) \<Rightarrow>
        if b_updated then
          (case update_marker_pos itf tgt_mkr_name tgt_mkr_coords of
             Inl e \<Rightarrow> Inl e
           | Inr w1 \<Rightarrow>
               (case update_marker_residual itf tgt_mkr_name tgt_mkr_resid of
                  Inl e \<Rightarrow> Inl e
                | Inr w2 \<Rightarrow>
                    Inr (True, count_nonzero (valid_mask tgt_mkr_resid), w1 @ w2)))
        else Inr (False, n_tgt_mkr_valid_frs, []))"

subsection \<open>fill_marker_gap_pattern\<close>

definition pattern_body ::
  "vec3 list \<Rightarrow> bool list \<Rightarrow> nat list \<Rightarrow> nat \<Rightarrow> fill_state \<Rightarrow> error + fill_state" where
  "pattern_body dnr_mkr_coords dnr_mkr_valid_mask both_mkr_valid_frs fr s =
     (case s of (tgt_mkr_coords, tgt_mkr_resid, b_updated) \<Rightarrow>
        (case brackets both_mkr_valid_frs fr of
           Inl e \<Rightarrow> Inl e
         | Inr (fr0, fr1) \<Rightarrow>
             if fr \<le> fr0 \<or> fr \<ge> fr1 then Inr s
             else if \<not> dnr_mkr_valid_mask ! fr0 \<or> \<not> dnr_mkr_valid_mask ! fr1 then Inr s
             else if np_any (logical_not (np_slice dnr_mkr_valid_mask fr0 (fr1 + 1))) then Inr s
             else
               let v_tgt = lin_interp (tgt_mkr_coords ! fr0) (tgt_mkr_coords ! fr1) fr0 fr1 fr;
                   v_dnr = lin_interp (dnr_mkr_coords ! fr0) (dnr_mkr_coords ! fr1) fr0 fr1 fr;
                   new_coords = vadd (vsub v_tgt v_dnr) (dnr_mkr_coords ! fr)
               in Inr (tgt_mkr_coords[fr := new_coords], tgt_mkr_resid[fr := 0], True)))"

definition fill_marker_gap_pattern :: "c3d \<Rightarrow> string \<Rightarrow> string \<Rightarrow> error + outcome" where
  "fill_marker_gap_pattern itf tgt_mkr_name dnr_mkr_name =
     (let n_total_frs = get_num_frames itf
      in case get_marker_data itf tgt_mkr_name of
           Inl e \<Rightarrow> Inl e
         | Inr None \<Rightarrow> Inl TypeError
         | Inr (Some (tgt_mkr_coords, tgt_mkr_resid)) \<Rightarrow>
             let tgt_mkr_valid_mask = valid_mask tgt_mkr_resid;
                 n_tgt_mkr_valid_frs = count_nonzero tgt_mkr_valid_mask
             in if n_tgt_mkr_valid_frs = 0 \<or> int n_tgt_mkr_valid_frs = n_total_frs
                then Inr (False, n_tgt_mkr_valid_frs, [])
                else (case get_marker_data itf dnr_mkr_name of
                   Inl e \<Rightarrow> Inl e
                 | Inr None \<Rightarrow> Inl TypeError
                 | Inr (Some (dnr_mkr_coords, dnr_mkr_resid)) \<Rightarrow>
                     let dnr_mkr_valid_mask = valid_mask dnr_mkr_resid
                     in if \<not> np_any dnr_mkr_valid_mask
                        then Inr (False, n_tgt_mkr_valid_frs, [])
                        else
                          let both_mkr_valid_mask =
                                logical_and tgt_mkr_valid_mask dnr_mkr_valid_mask
                          in if \<not> np_any both_mkr_valid_mask
                             then Inr (False, n_tgt_mkr_valid_frs, [])
                             else
                               let tgt_mkr_invalid_frs =
                                     np_where (logical_not tgt_mkr_valid_mask);
                                   both_mkr_valid_frs = np_where both_mkr_valid_mask
                               in (case for_loop
                                      (pattern_body dnr_mkr_coords dnr_mkr_valid_mask
                                         both_mkr_valid_frs)
                                      tgt_mkr_invalid_frs
                                      (tgt_mkr_coords, tgt_mkr_resid, False) of
                                     Inl e \<Rightarrow> Inl e
                                   | Inr s \<Rightarrow>
                                       write_back itf tgt_mkr_name n_tgt_mkr_valid_frs s)))"

subsection \<open>The cluster of the three functions that take one\<close>

text \<open>
  \<^verbatim>\<open>recover_marker_relative\<close>, \<^verbatim>\<open>recover_marker_rigidbody\<close> and
  \<^verbatim>\<open>fill_marker_gap_rigidbody\<close> load the cluster markers by the same loop: the state is
  \<^verbatim>\<open>dict_cl_mkr_coords\<close>, \<^verbatim>\<open>dict_cl_mkr_valid\<close> and \<^verbatim>\<open>cl_mkr_valid_mask\<close>. A
  dictionary is an association list in the order of first insertion.
\<close>

type_synonym cl_state = "(string \<times> vec3 list) list \<times> (string \<times> bool list) list \<times> bool list"

definition load_cluster_body :: "c3d \<Rightarrow> string \<Rightarrow> cl_state \<Rightarrow> error + cl_state" where
  "load_cluster_body itf mkr s =
     (case s of (dict_cl_mkr_coords, dict_cl_mkr_valid, cl_mkr_valid_mask) \<Rightarrow>
        (case get_marker_data itf mkr of
           Inl e \<Rightarrow> Inl e
         | Inr None \<Rightarrow> Inl TypeError
         | Inr (Some (mkr_coords, mkr_resid)) \<Rightarrow>
             Inr (AList.update mkr mkr_coords dict_cl_mkr_coords,
                  AList.update mkr (valid_mask mkr_resid) dict_cl_mkr_valid,
                  logical_and cl_mkr_valid_mask (valid_mask mkr_resid))))"

definition load_cluster :: "c3d \<Rightarrow> string list \<Rightarrow> error + cl_state" where
  "load_cluster itf cl_mkr_names =
     for_loop (load_cluster_body itf) cl_mkr_names
       ([], [], replicate (nat (get_num_frames itf)) True)"

text \<open>\<^verbatim>\<open>dict[key]\<close> for a key that was inserted.\<close>

definition dict_get :: "('k \<times> 'v) list \<Rightarrow> 'k \<Rightarrow> 'v" where
  "dict_get d k = the (map_of d k)"

subsection \<open>fill_marker_gap_rigidbody\<close>

text \<open>
  The local function \<^verbatim>\<open>RBT(A, B)\<close>. Its parameter \<^verbatim>\<open>svd\<close> stands for
  \<^verbatim>\<open>np.linalg.svd\<close>, which returns \<^verbatim>\<open>U, S, Vt\<close>.
\<close>

type_synonym svd_fun = "mat3 \<Rightarrow> mat3 \<times> vec3 \<times> mat3"

text \<open>\<^verbatim>\<open>np.dot((B-np.mean(B, axis=0)).T, (A-np.mean(A, axis=0)))\<close>\<close>

definition cross_cov :: "vec3 list \<Rightarrow> vec3 list \<Rightarrow> mat3" where
  "cross_cov A B =
     foldr madd
       (map (\<lambda>(a, b). outer (vsub b (mean_rows B)) (vsub a (mean_rows A))) (zip A B))
       (zero3, zero3, zero3)"

definition RBT ::
  "svd_fun \<Rightarrow> vec3 list \<Rightarrow> vec3 list \<Rightarrow> mat3 \<times> vec3 \<times> vec3 list \<times> real list \<times> real" where
  "RBT svd A B =
     (let C = cross_cov A B
      in case svd C of (U, S, Vt) \<Rightarrow>
        let R = mat_mul U (mat_mul (diag3 (1, 1, det3 (mat_mul U Vt))) Vt);
            L = vsub (mean_rows B) (mat_vec R (mean_rows A));
            err_vec = map (\<lambda>(a, b). vsub (vadd (mat_vec R a) L) b) (zip A B);
            err_norm = map norm3 err_vec;
            mean_err_norm = foldr (+) err_norm 0 / real (length err_norm)
        in (R, L, err_vec, err_norm, mean_err_norm))"

definition rigidbody_body ::
  "svd_fun \<Rightarrow> string list \<Rightarrow> (string \<times> vec3 list) list \<Rightarrow> bool list \<Rightarrow> nat list \<Rightarrow>
     nat \<Rightarrow> fill_state \<Rightarrow> error + fill_state" where
  "rigidbody_body svd cl_mkr_names dict_cl_mkr_coords cl_mkr_valid_mask all_mkr_valid_frs fr s =
     (case s of (tgt_mkr_coords, tgt_mkr_resid, b_updated) \<Rightarrow>
        (case brackets all_mkr_valid_frs fr of
           Inl e \<Rightarrow> Inl e
         | Inr (fr0, fr1) \<Rightarrow>
             if fr \<le> fr0 \<or> fr \<ge> fr1 then Inr s
             else if \<not> cl_mkr_valid_mask ! fr0 \<or> \<not> cl_mkr_valid_mask ! fr1 then Inr s
             else if np_any (logical_not (np_slice cl_mkr_valid_mask fr0 (fr1 + 1))) then Inr s
             else
               let cl_mkr_coords_fr0 =
                     map (\<lambda>mkr. dict_get dict_cl_mkr_coords mkr ! fr0) cl_mkr_names;
                   cl_mkr_coords_fr1 =
                     map (\<lambda>mkr. dict_get dict_cl_mkr_coords mkr ! fr1) cl_mkr_names;
                   cl_mkr_coords_fr =
                     map (\<lambda>mkr. dict_get dict_cl_mkr_coords mkr ! fr) cl_mkr_names
               in case RBT svd cl_mkr_coords_fr0 cl_mkr_coords_fr of
                 (rot_fr0, trans_fr0, _) \<Rightarrow>
                   (case RBT svd cl_mkr_coords_fr1 cl_mkr_coords_fr of
                      (rot_fr1, trans_fr1, _) \<Rightarrow>
                        let tgt_mkr_coords_fr_fr0 =
                              vadd (mat_vec rot_fr0 (tgt_mkr_coords ! fr0)) trans_fr0;
                            tgt_mkr_coords_fr_fr1 =
                              vadd (mat_vec rot_fr1 (tgt_mkr_coords ! fr1)) trans_fr1
                        in Inr (tgt_mkr_coords
                                  [fr := lin_interp tgt_mkr_coords_fr_fr0 tgt_mkr_coords_fr_fr1
                                           fr0 fr1 fr],
                                tgt_mkr_resid[fr := 0], True))))"

text \<open>The part of the three cluster functions between loading the target and their loop:
  the early returns and the two frame arrays. \<^verbatim>\<open>Inr (Inl outcome)\<close> is an early return.\<close>

type_synonym cluster_frames =
  "(string \<times> vec3 list) list \<times> bool list \<times> nat list \<times> nat list"

definition cluster_frames ::
  "c3d \<Rightarrow> string list \<Rightarrow> bool list \<Rightarrow> nat \<Rightarrow> error + (outcome + cluster_frames)" where
  "cluster_frames itf cl_mkr_names tgt_mkr_valid_mask n_tgt_mkr_valid_frs =
     (case load_cluster itf cl_mkr_names of
        Inl e \<Rightarrow> Inl e
      | Inr (dict_cl_mkr_coords, dict_cl_mkr_valid, cl_mkr_valid_mask) \<Rightarrow>
          let all_mkr_valid_mask = logical_and cl_mkr_valid_mask tgt_mkr_valid_mask
          in if \<not> np_any all_mkr_valid_mask
             then Inr (Inl (False, n_tgt_mkr_valid_frs, []))
             else
               let cl_mkr_only_valid_mask =
                     logical_and cl_mkr_valid_mask (logical_not tgt_mkr_valid_mask)
               in if \<not> np_any cl_mkr_only_valid_mask
                  then Inr (Inl (False, n_tgt_mkr_valid_frs, []))
                  else Inr (Inr (dict_cl_mkr_coords, cl_mkr_valid_mask,
                                 np_where all_mkr_valid_mask,
                                 np_where cl_mkr_only_valid_mask)))"

definition fill_marker_gap_rigidbody ::
  "svd_fun \<Rightarrow> c3d \<Rightarrow> string \<Rightarrow> string list \<Rightarrow> error + outcome" where
  "fill_marker_gap_rigidbody svd itf tgt_mkr_name cl_mkr_names =
     (let n_total_frs = get_num_frames itf
      in case get_marker_data itf tgt_mkr_name of
           Inl e \<Rightarrow> Inl e
         | Inr None \<Rightarrow> Inl TypeError
         | Inr (Some (tgt_mkr_coords, tgt_mkr_resid)) \<Rightarrow>
             let tgt_mkr_valid_mask = valid_mask tgt_mkr_resid;
                 n_tgt_mkr_valid_frs = count_nonzero tgt_mkr_valid_mask
             in if n_tgt_mkr_valid_frs = 0 then Inr (False, n_tgt_mkr_valid_frs, [])
                else if int n_tgt_mkr_valid_frs = n_total_frs
                  then Inr (False, n_tgt_mkr_valid_frs, [])
                else (case cluster_frames itf cl_mkr_names tgt_mkr_valid_mask
                             n_tgt_mkr_valid_frs of
                   Inl e \<Rightarrow> Inl e
                 | Inr (Inl early) \<Rightarrow> Inr early
                 | Inr (Inr (dict_cl_mkr_coords, cl_mkr_valid_mask, all_mkr_valid_frs,
                             cl_mkr_only_valid_frs)) \<Rightarrow>
                     (case for_loop
                             (rigidbody_body svd cl_mkr_names dict_cl_mkr_coords
                                cl_mkr_valid_mask all_mkr_valid_frs)
                             cl_mkr_only_valid_frs
                             (tgt_mkr_coords, tgt_mkr_resid, False) of
                        Inl e \<Rightarrow> Inl e
                      | Inr s \<Rightarrow> write_back itf tgt_mkr_name n_tgt_mkr_valid_frs s)))"

subsection \<open>fill_marker_gap_interp\<close>

text \<open>
  The parameter \<^verbatim>\<open>spline\<close> stands for \<^verbatim>\<open>InterpolatedUnivariateSpline(x, y, k=k,
  ext='const')\<close>: it returns the fitted function, or nothing when the constructor raises.
\<close>

type_synonym spline_fun = "int \<Rightarrow> nat list \<Rightarrow> real list \<Rightarrow> (nat \<Rightarrow> real) option"

text \<open>\<^verbatim>\<open>np.diff\<close> of an index array, and \<^verbatim>\<open>np.split(ary, indices)\<close>.\<close>

definition np_diff :: "nat list \<Rightarrow> int list" where
  "np_diff xs = map (\<lambda>i. int (xs ! Suc i) - int (xs ! i)) [0..<length xs - 1]"

fun np_split_from :: "nat \<Rightarrow> 'a list \<Rightarrow> nat list \<Rightarrow> 'a list list" where
  "np_split_from st xs [] = [drop st xs]"
| "np_split_from st xs (i # is) = np_slice xs st i # np_split_from i xs is"

definition np_split :: "'a list \<Rightarrow> nat list \<Rightarrow> 'a list list" where
  "np_split xs is = np_split_from 0 xs is"

text \<open>\<^verbatim>\<open>np.split(frs, np.where(np.diff(frs)!=1)[0]+1)\<close>\<close>

definition invalid_gaps :: "nat list \<Rightarrow> nat list list" where
  "invalid_gaps frs =
     np_split frs (map (\<lambda>i. i + 1) (np_where (map (\<lambda>d. d \<noteq> 1) (np_diff frs))))"

definition np_min :: "nat list \<Rightarrow> nat" where
  "np_min xs = Min (set xs)"

definition np_max :: "nat list \<Rightarrow> nat" where
  "np_max xs = Max (set xs)"

text \<open>\<^verbatim>\<open>range(a, b, -1)\<close> and \<^verbatim>\<open>range(a, b, 1)\<close>\<close>

definition range_down :: "int \<Rightarrow> int \<Rightarrow> int list" where
  "range_down a b = rev [b + 1..a]"

definition range_up :: "int \<Rightarrow> int \<Rightarrow> int list" where
  "range_up a b = [a..b - 1]"

text \<open>\<^verbatim>\<open>np.int(np.ceil(gap.size/2))+search_span_offset\<close>\<close>

definition search_span_of :: "nat list \<Rightarrow> int \<Rightarrow> int" where
  "search_span_of gap search_span_offset =
     \<lceil>real (length gap) / 2\<rceil> + search_span_offset"

text \<open>The candidate mask of one gap: the two loops over the frames before and after the
  gap, then the conjunction with the validity mask taken at entry.\<close>

definition itpl_cand_frs_mask :: "int \<Rightarrow> bool list \<Rightarrow> int \<Rightarrow> nat list \<Rightarrow> bool list" where
  "itpl_cand_frs_mask n_total_frs tgt_mkr_valid_mask search_span gap =
     (let m0 = replicate (nat n_total_frs) False;
          m1 = foldl (\<lambda>m i. if i \<ge> 0 then m[nat i := True] else m) m0
                 (range_down (int (np_min gap) - 1) (int (np_min gap) - 1 - search_span));
          m2 = foldl (\<lambda>m i. if i < n_total_frs then m[nat i := True] else m) m1
                 (range_up (int (np_max gap) + 1) (int (np_max gap) + 1 + search_span))
      in logical_and m2 tgt_mkr_valid_mask)"

fun x_of :: "vec3 \<Rightarrow> real" where
  "x_of (x, y, z) = x"

fun y_of :: "vec3 \<Rightarrow> real" where
  "y_of (x, y, z) = y"

fun z_of :: "vec3 \<Rightarrow> real" where
  "z_of (x, y, z) = z"

text \<open>The loop \<^verbatim>\<open>for idx, fr in enumerate(gap)\<close> that stores the interpolated rows.\<close>

definition store_gap ::
  "nat list \<Rightarrow> vec3 list \<Rightarrow> vec3 list \<times> real list \<Rightarrow> vec3 list \<times> real list" where
  "store_gap gap itpl cr =
     foldl (\<lambda>(c, r) (fr, v). (c[fr := v], r[fr := 0])) cr (zip gap itpl)"

definition interp_body ::
  "spline_fun \<Rightarrow> int \<Rightarrow> int \<Rightarrow> int \<Rightarrow> int \<Rightarrow> bool list \<Rightarrow>
     nat list \<Rightarrow> fill_state \<Rightarrow> error + fill_state" where
  "interp_body spline k search_span_offset min_needed_frs n_total_frs tgt_mkr_valid_mask gap s =
     (case s of (tgt_mkr_coords, tgt_mkr_resid, b_updated) \<Rightarrow>
        if length gap = 0 then Inr s
        else if np_min gap = 0 \<or> int (np_max gap) = n_total_frs - 1 then Inr s
        else
          let search_span = search_span_of gap search_span_offset;
              itpl_cand_frs_mask =
                itpl_cand_frs_mask n_total_frs tgt_mkr_valid_mask search_span gap
          in if int (count_nonzero itpl_cand_frs_mask) < min_needed_frs then Inr s
             else
               let itpl_cand_frs = np_where itpl_cand_frs_mask;
                   itpl_cand_coords = map (\<lambda>i. tgt_mkr_coords ! i) itpl_cand_frs
               in case spline k itpl_cand_frs (map x_of itpl_cand_coords) of
                 None \<Rightarrow> Inl SplineError
               | Some fun_itpl_x \<Rightarrow>
                   (case spline k itpl_cand_frs (map y_of itpl_cand_coords) of
                      None \<Rightarrow> Inl SplineError
                    | Some fun_itpl_y \<Rightarrow>
                        (case spline k itpl_cand_frs (map z_of itpl_cand_coords) of
                           None \<Rightarrow> Inl SplineError
                         | Some fun_itpl_z \<Rightarrow>
                             (case store_gap gap
                                     (map (\<lambda>fr. (fun_itpl_x fr, fun_itpl_y fr, fun_itpl_z fr))
                                        gap)
                                     (tgt_mkr_coords, tgt_mkr_resid) of
                                (c, r) \<Rightarrow> Inr (c, r, True)))))"

definition fill_marker_gap_interp ::
  "spline_fun \<Rightarrow> c3d \<Rightarrow> string \<Rightarrow> int \<Rightarrow> int \<Rightarrow> int \<Rightarrow> error + outcome" where
  "fill_marker_gap_interp spline itf tgt_mkr_name k search_span_offset min_needed_frs =
     (let n_total_frs = get_num_frames itf
      in case get_marker_data itf tgt_mkr_name of
           Inl e \<Rightarrow> Inl e
         | Inr None \<Rightarrow> Inl TypeError
         | Inr (Some (tgt_mkr_coords, tgt_mkr_resid)) \<Rightarrow>
             let tgt_mkr_valid_mask = valid_mask tgt_mkr_resid;
                 n_tgt_mkr_valid_frs = count_nonzero tgt_mkr_valid_mask
             in if n_tgt_mkr_valid_frs = 0 \<or> int n_tgt_mkr_valid_frs = n_total_frs
                then Inr (False, n_tgt_mkr_valid_frs, [])
                else
                  let tgt_mkr_invalid_frs = np_where (logical_not tgt_mkr_valid_mask);
                      tgt_mkr_invalid_gaps = invalid_gaps tgt_mkr_invalid_frs
                  in (case for_loop
                          (interp_body spline k search_span_offset min_needed_frs n_total_frs
                             tgt_mkr_valid_mask)
                          tgt_mkr_invalid_gaps
                          (tgt_mkr_coords, tgt_mkr_resid, False) of
                        Inl e \<Rightarrow> Inl e
                      | Inr s \<Rightarrow> write_back itf tgt_mkr_name n_tgt_mkr_valid_frs s))"

subsection \<open>The reference frame of the two recovery functions\<close>

text \<open>\<^verbatim>\<open>np.nanmean\<close> of a one-dimensional array; no entry is NaN in this embedding.\<close>

definition nanmean :: "real list \<Rightarrow> real" where
  "nanmean xs = foldr (+) xs 0 / real (length xs)"







subsection \<open>recover_marker_relative\<close>







subsection \<open>recover_marker_rigidbody\<close>




subsection \<open>The row a loop stores for a frame, from the arrays at entry\<close>



subsection \<open>The columns of a marker\<close>




subsection \<open>The contract of the singular value decomposition\<close>


subsection \<open>Concrete files\<close>

text \<open>Two frames, the target \<^verbatim>\<open>T\<close> blocked at the first one, the marker \<^verbatim>\<open>D\<close> valid at
  both: the second frame is the only one where both markers are valid.\<close>

definition one_anchor_file :: c3d where
  "one_anchor_file =
     \<lparr>first_frame = 1, last_frame = 2, labels = [''T'', ''D''],
      point_xyz = (\<lambda>i f. (0, 0, 0)),
      point_resid = (\<lambda>i f. if i = 0 \<and> f = 1 then - 1 else 0)\<rparr>"








text \<open>Ten frames of one marker: a gap at the first frame, a gap of one frame with four
  valid neighbours within two frames, a gap of one frame with three, and a gap at the last
  two frames. \<^verbatim>\<open>mean_spline\<close> stands for a spline routine: it refuses \<^verbatim>\<open>k\<close> or fewer points
  and otherwise returns the constant function of their mean.\<close>

definition gaps_file :: c3d where
  "gaps_file =
     \<lparr>first_frame = 1, last_frame = 10, labels = [''T''],
      point_xyz = (\<lambda>i f. if f \<in> {1, 4, 7, 9, 10} then (0, 0, 0)
                          else (real_of_int f, 2 * real_of_int f, 0)),
      point_resid = (\<lambda>i f. if f \<in> {1, 4, 7, 9, 10} then - 1 else 0)\<rparr>"

definition mean_spline :: spline_fun where
  "mean_spline k xs ys =
     (if int (length xs) \<le> k then None else Some (\<lambda>fr. nanmean ys))"

text \<open>A spline routine that fits as \<^verbatim>\<open>mean_spline\<close> does, but raises when it is handed
  a frame that is not valid in the residuals \<^verbatim>\<open>tr\<close>.\<close>

definition guarded_spline :: "real list \<Rightarrow> spline_fun" where
  "guarded_spline tr k xs ys =
     (if list_all (\<lambda>i. i < length tr \<and> \<not> isclose (tr ! i) (- 1)) xs
      then mean_spline k xs ys else None)"

section \<open>Properties\<close>

text \<open>Square roots are left to the simplifier when a term is evaluated.\<close>

declare root_def [code del]

subsection \<open>A single common valid frame\<close>

text \<open>
  Claim C8, at its failing input. With exactly one frame where target and donor (or cluster)
  are both valid, and an invalid target frame before it, \<^verbatim>\<open>searchsorted\<close> returns 0 and
  the read of entry 1 of the one-element frame array raises \<^verbatim>\<open>IndexError\<close>: neither
  function skips the frame silently.
\<close>

theorem one_anchor_raises:
  "fill_marker_gap_pattern one_anchor_file ''T'' ''D'' = Inl IndexError \<and>
   fill_marker_gap_rigidbody svd one_anchor_file ''T'' [''D''] = Inl IndexError"
  by code_simp

subsection \<open>Arrays read from the file\<close>

lemma get_marker_data_length:
  assumes "get_marker_data itf name = Inr (Some (c, r))"
  shows "int (length c) = get_num_frames itf" and "int (length r) = get_num_frames itf"
    and "length c = length r"
  using assms
  by (auto simp: get_marker_data_def check_frame_range_valid_def get_num_frames_def Let_def
      split: if_splits option.splits)

lemma length_valid_mask [simp]: "length (valid_mask rs) = length rs"
  by (simp add: valid_mask_def)

lemma nth_valid_mask: "i < length rs \<Longrightarrow> valid_mask rs ! i = (\<not> isclose (rs ! i) (- 1))"
  by (simp add: valid_mask_def)




subsection \<open>Trajectories without a gap or without a valid frame\<close>



subsection \<open>The rigid fit\<close>





lemma mat_mul_identity3 [simp]: "mat_mul identity3 m = m" "mat_mul m identity3 = m"
  by (cases m rule: prod_cases3; auto simp: identity3_def)+





lemma det3_diag3 [simp]: "det3 (diag3 (a, b, c)) = a * b * c"
  by simp




subsection \<open>Masks, frame arrays and bracket frames\<close>

lemma set_np_where: "set (np_where m) = {i. i < length m \<and> m ! i}"
  by (auto simp: np_where_def)

lemma sorted_np_where: "sorted (np_where m)"
  by (simp add: np_where_def sorted_wrt_filter)

lemma distinct_np_where: "distinct (np_where m)"
  by (simp add: np_where_def)

lemma length_logical_and [simp]:
  "length (logical_and m1 m2) = min (length m1) (length m2)"
  by (simp add: logical_and_def)

lemma nth_logical_and:
  "i < length m1 \<Longrightarrow> i < length m2 \<Longrightarrow> logical_and m1 m2 ! i = (m1 ! i \<and> m2 ! i)"
  by (simp add: logical_and_def)

lemma length_logical_not [simp]: "length (logical_not m) = length m"
  by (simp add: logical_not_def)

lemma nth_logical_not: "i < length m \<Longrightarrow> logical_not m ! i = (\<not> m ! i)"
  by (simp add: logical_not_def)



lemma np_get_nat: "n < length xs \<Longrightarrow> np_get xs (int n) = Inr (xs ! n)"
  by (simp add: np_get_def)









subsection \<open>Loops that fill at most one frame per pass\<close>


subsection \<open>Writing back\<close>

lemma get_marker_data_index:
  assumes "get_marker_data itf name = Inr (Some d)"
  shows "\<exists>i. get_marker_index itf name = Some i \<and> i \<noteq> - 1"
  using assms
  by (cases "get_marker_index itf name")
     (auto simp: get_marker_data_def Let_def split: if_splits prod.splits)

lemma write_back_True:
  assumes "get_marker_data itf name = Inr (Some d)"
    and "int (length c) = get_num_frames itf" and "int (length r) = get_num_frames itf"
  shows "\<exists>i. write_back itf name n (c, r, True)
           = Inr (True, count_nonzero (valid_mask r), [PosWrite i c, ResidWrite i r])"
  using get_marker_data_index[OF assms(1)] assms(2,3)
  by (auto simp: write_back_def update_marker_pos_def update_marker_residual_def)

lemma write_back_False: "write_back itf name n (c, r, False) = Inr (False, n, [])"
  by (simp add: write_back_def)

subsection \<open>fill_marker_gap_pattern: the arrays written back\<close>









subsection \<open>Loading the cluster\<close>






subsection \<open>fill_marker_gap_rigidbody: the arrays written back\<close>









subsection \<open>fill_marker_gap_interp: gaps, candidate frames and the loop\<close>

lemma np_where_Cons:
  "np_where (b # bs) = (if b then [0] else []) @ map Suc (np_where bs)"
proof -
  have "[0..<length (b # bs)] = 0 # map Suc [0..<length bs]"
    by (simp add: upt_conv_Cons map_Suc_upt del: upt_Suc)
  then show ?thesis
    by (simp add: np_where_def filter_map comp_def)
qed

lemma np_diff_Cons2: "np_diff (x # y # xs) = (int y - int x) # np_diff (y # xs)"
proof -
  have "[0..<length (x # y # xs) - 1] = 0 # map Suc [0..<length (y # xs) - 1]"
    by (simp add: upt_conv_Cons map_Suc_upt del: upt_Suc)
  then show ?thesis
    by (simp add: np_diff_def comp_def del: upt_Suc)
qed

lemma np_diff_single [simp]: "np_diff [x] = []" "np_diff [] = []"
  by (simp_all add: np_diff_def)

lemma np_split_from_Suc:
  "np_split_from (Suc st) (x # xs) (map Suc is) = np_split_from st xs is"
  by (induction "is" arbitrary: st) (simp_all add: np_slice_def)

lemma np_split_from_0_Suc:
  "np_split_from 0 (x # xs) (map Suc is)
     = (x # hd (np_split_from 0 xs is)) # tl (np_split_from 0 xs is)"
proof (cases "is")
  case Nil
  then show ?thesis by simp
next
  case (Cons i is')
  then show ?thesis
    by (simp add: np_slice_def np_split_from_Suc)
qed

lemma invalid_gaps_Nil [simp]: "invalid_gaps [] = [[]]"
  by (simp add: invalid_gaps_def np_split_def np_where_def)

lemma invalid_gaps_single [simp]: "invalid_gaps [x] = [[x]]"
  by (simp add: invalid_gaps_def np_split_def np_where_def)

lemma invalid_gaps_Cons2:
  "invalid_gaps (x # y # xs) =
     (if int y - int x = 1
      then (x # hd (invalid_gaps (y # xs))) # tl (invalid_gaps (y # xs))
      else [x] # invalid_gaps (y # xs))"
proof -
  let ?is = "map (\<lambda>i. i + 1) (np_where (map (\<lambda>d. d \<noteq> 1) (np_diff (y # xs))))"
  have w: "map (\<lambda>i. i + 1) (np_where (map (\<lambda>d. d \<noteq> 1) (np_diff (x # y # xs))))
             = (if int y - int x \<noteq> 1 then [1] else []) @ map Suc ?is"
    by (simp add: np_diff_Cons2 np_where_Cons)
  show ?thesis
  proof (cases "int y - int x = 1")
    case True
    then show ?thesis
      using w np_split_from_0_Suc[of x "y # xs" ?is]
      by (simp add: invalid_gaps_def np_split_def)
  next
    case False
    then have "invalid_gaps (x # y # xs) = np_split_from 0 (x # y # xs) (1 # map Suc ?is)"
      using w by (simp add: invalid_gaps_def np_split_def)
    also have "\<dots> = [x] # np_split_from (Suc 0) (x # y # xs) (map Suc ?is)"
      by (simp add: np_slice_def)
    also have "\<dots> = [x] # np_split_from 0 (y # xs) ?is"
      by (simp only: np_split_from_Suc)
    finally show ?thesis
      using False by (simp add: invalid_gaps_def np_split_def)
  qed
qed

lemma invalid_gaps_ne [simp]: "invalid_gaps frs \<noteq> []"
  by (induction frs rule: induct_list012) (simp_all add: invalid_gaps_Cons2)

lemma concat_invalid_gaps: "concat (invalid_gaps frs) = frs"
proof (induction frs rule: induct_list012)
  case (3 x y zs)
  have "hd (invalid_gaps (y # zs)) @ concat (tl (invalid_gaps (y # zs))) = y # zs"
    using 3(2) invalid_gaps_ne[of "y # zs"]
    by (cases "invalid_gaps (y # zs)") simp_all
  then show ?case
    using 3(2) by (simp add: invalid_gaps_Cons2)
qed simp_all

lemma hd_invalid_gaps: "frs \<noteq> [] \<Longrightarrow> hd (invalid_gaps frs) \<noteq> [] \<and> hd (hd (invalid_gaps frs)) = hd frs"
  by (induction frs rule: induct_list012) (simp_all add: invalid_gaps_Cons2)

text \<open>Each gap of a strictly ascending frame array is an interval that cannot be extended
  within the array.\<close>

lemma invalid_gaps_intervals:
  assumes "sorted_wrt (<) frs" and "frs \<noteq> []"
  shows "\<forall>g\<in>set (invalid_gaps frs).
           \<exists>a b. a < b \<and> g = [a..<b] \<and> (a = 0 \<or> a - 1 \<notin> set frs) \<and> b \<notin> set frs"
  using assms
proof (induction frs rule: induct_list012)
  case 1
  then show ?case by simp
next
  case (2 x)
  have "x < Suc x \<and> [x] = [x..<Suc x] \<and> (x = 0 \<or> x - 1 \<notin> set [x]) \<and> Suc x \<notin> set [x]"
    by (cases x) simp_all
  then have "\<exists>a b. a < b \<and> [x] = [a..<b] \<and> (a = 0 \<or> a - 1 \<notin> set [x]) \<and> b \<notin> set [x]"
    by blast
  then show ?case by simp
next
  case (3 x y zs)
  let ?gs = "invalid_gaps (y # zs)"
  have xy: "x < y" and s': "sorted_wrt (<) (y # zs)" and gt: "\<forall>z\<in>set (y # zs). x < z"
    and ge: "\<forall>z\<in>set (y # zs). y \<le> z"
    using "3.prems"(1) by auto
  have dist: "distinct (y # zs)"
    using s' strict_sorted_iff by blast
  have IH: "\<forall>g\<in>set ?gs. \<exists>a b. a < b \<and> g = [a..<b] \<and>
              (a = 0 \<or> a - 1 \<notin> set (y # zs)) \<and> b \<notin> set (y # zs)"
    using "3.IH"(2)[OF s'] by simp
  obtain g1 rest where gs: "?gs = g1 # rest"
    using invalid_gaps_ne[of "y # zs"] by (cases ?gs) auto
  have g1: "g1 \<noteq> []" "hd g1 = y"
    using hd_invalid_gaps[of "y # zs"] gs by simp_all
  have cc: "g1 @ concat rest = y # zs"
    using concat_invalid_gaps[of "y # zs"] gs by simp
  have sub: "set g \<subseteq> set (y # zs)" if "g \<in> set ?gs" for g
  proof -
    have "set g \<subseteq> set (concat ?gs)" using that by auto
    then show ?thesis by (simp only: concat_invalid_gaps)
  qed
  show ?case
  proof (cases "int y - int x = 1")
    case True
    then have y: "y = Suc x" by simp
    have eq: "invalid_gaps (x # y # zs) = (x # g1) # rest"
      using True gs by (simp add: invalid_gaps_Cons2)
    have first: "\<exists>a b. a < b \<and> x # g1 = [a..<b] \<and>
              (a = 0 \<or> a - 1 \<notin> set (x # y # zs)) \<and> b \<notin> set (x # y # zs)"
    proof -
      obtain a b where ab: "a < b" "g1 = [a..<b]" "b \<notin> set (y # zs)"
        using IH gs by auto
      have a: "a = Suc x" using ab g1 y by simp
      have "x # g1 = [x..<b]"
        using ab a by (simp add: upt_conv_Cons)
      moreover have "x < b" using ab a by simp
      moreover have "x = 0 \<or> x - 1 \<notin> set (x # y # zs)"
        using gt by (cases x) auto
      moreover have "b \<notin> set (x # y # zs)"
        using ab a by auto
      ultimately show ?thesis by blast
    qed
    have others: "\<exists>a b. a < b \<and> g = [a..<b] \<and>
              (a = 0 \<or> a - 1 \<notin> set (x # y # zs)) \<and> b \<notin> set (x # y # zs)"
      if g: "g \<in> set rest" for g
    proof -
      obtain a b where ab: "a < b" "g = [a..<b]" "a = 0 \<or> a - 1 \<notin> set (y # zs)"
        "b \<notin> set (y # zs)"
        using IH gs g by auto
      have ag: "a \<in> set g" using ab by simp
      then have ain: "a \<in> set (y # zs)" using sub[of g] g gs by auto
      have "a \<in> set (concat rest)" using ag g by auto
      moreover have "y \<in> set g1" using g1 by (cases g1) auto
      moreover have "set g1 \<inter> set (concat rest) = {}"
      proof -
        have "distinct (g1 @ concat rest)" using dist cc by simp
        then show ?thesis by simp
      qed
      ultimately have "a \<noteq> y" by blast
      then have "a - 1 \<noteq> x" using y ain gt by auto
      moreover have "b \<noteq> x" using ab ain gt by auto
      ultimately show ?thesis using ab by (intro exI[of _ a] exI[of _ b]) auto
    qed
    show ?thesis
      unfolding eq using first others by auto
  next
    case False
    then have y: "Suc x < y" using xy by simp
    have eq: "invalid_gaps (x # y # zs) = [x] # ?gs"
      using False by (simp add: invalid_gaps_Cons2)
    have first: "\<exists>a b. a < b \<and> [x] = [a..<b] \<and>
              (a = 0 \<or> a - 1 \<notin> set (x # y # zs)) \<and> b \<notin> set (x # y # zs)"
    proof -
      have "[x] = [x..<Suc x]" by simp
      moreover have "x = 0 \<or> x - 1 \<notin> set (x # y # zs)"
        using gt by (cases x) auto
      moreover have "Suc x \<notin> set (x # y # zs)"
        using y ge by auto
      ultimately show ?thesis by (intro exI[of _ x] exI[of _ "Suc x"]) simp
    qed
    have others: "\<exists>a b. a < b \<and> g = [a..<b] \<and>
              (a = 0 \<or> a - 1 \<notin> set (x # y # zs)) \<and> b \<notin> set (x # y # zs)"
      if g: "g \<in> set ?gs" for g
    proof -
      obtain a b where ab: "a < b" "g = [a..<b]" "a = 0 \<or> a - 1 \<notin> set (y # zs)"
        "b \<notin> set (y # zs)"
        using IH g by auto
      have "a \<in> set g" using ab by simp
      then have ain: "a \<in> set (y # zs)" using sub[OF g] by auto
      then have "y \<le> a" using ge by blast
      then have "a - 1 \<noteq> x" "b \<noteq> x" using y ab by auto
      then show ?thesis using ab by (intro exI[of _ a] exI[of _ b]) auto
    qed
    show ?thesis
      unfolding eq using first others by auto
  qed
qed

lemma foldl_mark:
  fixes P :: "int \<Rightarrow> bool"
  shows "length (foldl (\<lambda>m i. if P i then m[nat i := True] else m) m0 xs) = length m0 \<and>
         (\<forall>j<length m0. foldl (\<lambda>m i. if P i then m[nat i := True] else m) m0 xs ! j
                \<longleftrightarrow> m0 ! j \<or> (\<exists>i\<in>set xs. P i \<and> nat i = j))"
proof (induction xs arbitrary: m0)
  case Nil
  then show ?case by simp
next
  case (Cons x xs)
  let ?f = "\<lambda>m i. if P i then m[nat i := True] else m"
  show ?case
  proof (cases "P x")
    case True
    have step: "foldl ?f m0 (x # xs) = foldl ?f (m0[nat x := True]) xs"
      using True by simp
    have n: "m0[nat x := True] ! j \<longleftrightarrow> m0 ! j \<or> nat x = j" if "j < length m0" for j
      using that by (cases "nat x = j") simp_all
    have IH: "length (foldl ?f (m0[nat x := True]) xs) = length m0"
      "\<And>j. j < length m0 \<Longrightarrow> foldl ?f (m0[nat x := True]) xs ! j
                \<longleftrightarrow> m0[nat x := True] ! j \<or> (\<exists>i\<in>set xs. P i \<and> nat i = j)"
      using Cons.IH[of "m0[nat x := True]"] by simp_all
    show ?thesis
      unfolding step using IH n True by auto
  next
    case False
    have step: "foldl ?f m0 (x # xs) = foldl ?f m0 xs"
      using False by simp
    show ?thesis
      unfolding step using Cons.IH[of m0] False by auto
  qed
qed

lemma set_range_down [simp]: "set (range_down a b) = {b + 1..a}"
  by (simp add: range_down_def)

lemma set_range_up [simp]: "set (range_up a b) = {a..b - 1}"
  by (simp add: range_up_def)

text \<open>The candidate mask of a gap: the valid frames among the \<^verbatim>\<open>search_span\<close> frames
  before the first frame of the gap and the \<^verbatim>\<open>search_span\<close> frames after its last.\<close>

lemma itpl_cand_frs_mask_nth:
  assumes n: "int (length tv) = n"
  shows "length (itpl_cand_frs_mask n tv sp gap) = length tv"
    and "j < length tv \<Longrightarrow>
         itpl_cand_frs_mask n tv sp gap ! j \<longleftrightarrow>
           tv ! j \<and> ((int (np_min gap) - sp \<le> int j \<and> int j < int (np_min gap)) \<or>
                    (int (np_max gap) < int j \<and> int j \<le> int (np_max gap) + sp))"
proof -
  let ?m0 = "replicate (nat n) False"
  let ?m1 = "foldl (\<lambda>m i. if i \<ge> 0 then m[nat i := True] else m) ?m0
                 (range_down (int (np_min gap) - 1) (int (np_min gap) - 1 - sp))"
  let ?m2 = "foldl (\<lambda>m i. if i < n then m[nat i := True] else m) ?m1
                 (range_up (int (np_max gap) + 1) (int (np_max gap) + 1 + sp))"
  have l0: "length ?m0 = length tv" using n by auto
  have l1: "length ?m1 = length tv"
    using foldl_mark[of "\<lambda>i. i \<ge> 0" ?m0] l0 by simp
  have l2: "length ?m2 = length tv"
    using foldl_mark[of "\<lambda>i. i < n" ?m1] l1 by simp
  have eq: "itpl_cand_frs_mask n tv sp gap = logical_and ?m2 tv"
    by (simp add: itpl_cand_frs_mask_def Let_def)
  show "length (itpl_cand_frs_mask n tv sp gap) = length tv"
    unfolding eq using l2 by simp
  assume j: "j < length tv"
  have m0: "\<not> ?m0 ! j" using j l0 by simp
  have m1: "?m1 ! j \<longleftrightarrow> int (np_min gap) - sp \<le> int j \<and> int j < int (np_min gap)"
  proof -
    have "?m1 ! j \<longleftrightarrow> ?m0 ! j \<or>
           (\<exists>i\<in>set (range_down (int (np_min gap) - 1) (int (np_min gap) - 1 - sp)).
               i \<ge> 0 \<and> nat i = j)"
      using foldl_mark[of "\<lambda>i. i \<ge> 0" ?m0] j l0 by simp
    also have "\<dots> \<longleftrightarrow> (\<exists>i. int (np_min gap) - sp \<le> i \<and> i \<le> int (np_min gap) - 1 \<and>
                               i \<ge> 0 \<and> nat i = j)"
      using m0 by auto
    also have "\<dots> \<longleftrightarrow> int (np_min gap) - sp \<le> int j \<and> int j < int (np_min gap)"
      by (auto intro: exI[of _ "int j"])
    finally show ?thesis .
  qed
  have m2: "?m2 ! j \<longleftrightarrow> ?m1 ! j \<or>
              (int (np_max gap) < int j \<and> int j \<le> int (np_max gap) + sp)"
  proof -
    have "?m2 ! j \<longleftrightarrow> ?m1 ! j \<or>
           (\<exists>i\<in>set (range_up (int (np_max gap) + 1) (int (np_max gap) + 1 + sp)).
               i < n \<and> nat i = j)"
      using foldl_mark[of "\<lambda>i. i < n" ?m1] j l1 by simp
    also have "(\<exists>i\<in>set (range_up (int (np_max gap) + 1) (int (np_max gap) + 1 + sp)).
               i < n \<and> nat i = j)
         \<longleftrightarrow> (\<exists>i. int (np_max gap) + 1 \<le> i \<and> i \<le> int (np_max gap) + sp \<and>
                               i < n \<and> nat i = j)"
      by auto
    also have "\<dots> \<longleftrightarrow> int (np_max gap) < int j \<and> int j \<le> int (np_max gap) + sp"
      using j n by (auto intro: exI[of _ "int j"])
    finally show ?thesis .
  qed
  show "itpl_cand_frs_mask n tv sp gap ! j \<longleftrightarrow>
           tv ! j \<and> ((int (np_min gap) - sp \<le> int j \<and> int j < int (np_min gap)) \<or>
                    (int (np_max gap) < int j \<and> int j \<le> int (np_max gap) + sp))"
    unfolding eq using j l2 m1 m2 by (simp add: nth_logical_and) blast
qed

lemma count_nonzero_card: "count_nonzero m = card {i. i < length m \<and> m ! i}"
  by (simp add: count_nonzero_def length_filter_conv_card)

lemma store_gap_effect:
  assumes "store_gap gap (map h gap) (c, r) = (c', r')"
  shows "length c' = length c \<and> length r' = length r \<and>
         (\<forall>f. f \<notin> set gap \<longrightarrow> c' ! f = c ! f \<and> r' ! f = r ! f) \<and>
         (\<forall>f\<in>set gap. f < length r \<longrightarrow> r' ! f = 0)"
  using assms
proof (induction gap arbitrary: c r)
  case Nil
  then show ?case by (simp add: store_gap_def)
next
  case (Cons x xs)
  have step: "store_gap xs (map h xs) (c[x := h x], r[x := 0]) = (c', r')"
    using Cons.prems by (simp add: store_gap_def)
  note IH = Cons.IH[OF step]
  have out: "c' ! f = c ! f \<and> r' ! f = r ! f" if "f \<notin> set (x # xs)" for f
    using IH that by auto
  have zero: "r' ! f = 0" if "f \<in> set (x # xs)" "f < length r" for f
  proof (cases "f \<in> set xs")
    case True
    then show ?thesis using IH that by auto
  next
    case False
    then have "f = x" using that by simp
    then show ?thesis using IH False that by auto
  qed
  show ?case using IH out zero by auto
qed

text \<open>One pass of the loop of \<^verbatim>\<open>fill_marker_gap_interp\<close> writes inside its gap only, and a
  row it writes gets residual 0.\<close>

lemma interp_body_effect:
  assumes "interp_body spline k off minfrs n tv gap (c, r, b) = Inr (c', r', b')"
  shows "length c' = length c \<and> length r' = length r \<and>
         (\<forall>f. f \<notin> set gap \<longrightarrow> c' ! f = c ! f \<and> r' ! f = r ! f) \<and>
         (\<forall>f<length r. (c' ! f = c ! f \<and> r' ! f = r ! f) \<or> r' ! f = 0)"
proof (cases "(c', r', b') = (c, r, b)")
  case True
  then show ?thesis by simp
next
  case False
  then obtain fx fy fz where
    st: "store_gap gap (map (\<lambda>fr. (fx fr, fy fr, fz fr)) gap) (c, r) = (c', r')"
    using assms
    by (auto simp: interp_body_def Let_def split: if_splits option.splits prod.splits)
  from store_gap_effect[OF st] show ?thesis
    by (metis)
qed

lemma interp_body_skip:
  assumes "gap = [] \<or> np_min gap = 0 \<or> int (np_max gap) = n - 1 \<or>
           int (count_nonzero (itpl_cand_frs_mask n tv (search_span_of gap off) gap)) < minfrs"
  shows "interp_body spline k off minfrs n tv gap s = Inr s"
  using assms by (cases s) (auto simp: interp_body_def Let_def)

lemma for_loop_interp_effect:
  assumes "for_loop (interp_body spline k off minfrs n tv) gs (c, r, b) = Inr (c', r', b')"
  shows "length c' = length c \<and> length r' = length r \<and>
         (\<forall>f. f \<notin> set (concat gs) \<longrightarrow> c' ! f = c ! f \<and> r' ! f = r ! f) \<and>
         (\<forall>f<length r. (c' ! f = c ! f \<and> r' ! f = r ! f) \<or> r' ! f = 0)"
  using assms
proof (induction gs arbitrary: c r b)
  case Nil
  then show ?case by simp
next
  case (Cons g gs)
  from Cons.prems obtain c1 r1 b1 where
    s1: "interp_body spline k off minfrs n tv g (c, r, b) = Inr (c1, r1, b1)"
    and rest: "for_loop (interp_body spline k off minfrs n tv) gs (c1, r1, b1) = Inr (c', r', b')"
    by (auto split: sum.splits)
  note E = interp_body_effect[OF s1]
  note IH = Cons.IH[OF rest]
  have len: "length c' = length c" "length r' = length r"
    using E IH by simp_all
  have out: "c' ! f = c ! f \<and> r' ! f = r ! f" if "f \<notin> set (concat (g # gs))" for f
    using E IH that by simp
  have dich: "(c' ! f = c ! f \<and> r' ! f = r ! f) \<or> r' ! f = 0" if "f < length r" for f
  proof -
    have a: "(c1 ! f = c ! f \<and> r1 ! f = r ! f) \<or> r1 ! f = 0" using E that by blast
    have b: "(c' ! f = c1 ! f \<and> r' ! f = r1 ! f) \<or> r' ! f = 0" using IH E that by simp
    show ?thesis using a b by auto
  qed
  show ?case using len out dich by blast
qed

lemma for_loop_interp_skipped:
  assumes "distinct (concat gs)" and "g \<in> set gs" and "f \<in> set g"
    and "\<forall>s. interp_body spline k off minfrs n tv g s = Inr s"
    and "for_loop (interp_body spline k off minfrs n tv) gs (c, r, b) = Inr (c', r', b')"
  shows "c' ! f = c ! f \<and> r' ! f = r ! f"
  using assms
proof (induction gs arbitrary: c r b)
  case Nil
  then show ?case by simp
next
  case (Cons h gs)
  from Cons.prems(5) obtain c1 r1 b1 where
    s1: "interp_body spline k off minfrs n tv h (c, r, b) = Inr (c1, r1, b1)"
    and rest: "for_loop (interp_body spline k off minfrs n tv) gs (c1, r1, b1) = Inr (c', r', b')"
    by (auto split: sum.splits)
  have d: "distinct (concat gs)" "set h \<inter> set (concat gs) = {}"
    using Cons.prems(1) by auto
  show ?case
  proof (cases "g \<in> set gs")
    case True
    then have "f \<in> set (concat gs)" using Cons.prems(3) by auto
    then have "f \<notin> set h" using d by auto
    then have "c1 ! f = c ! f \<and> r1 ! f = r ! f"
      using interp_body_effect[OF s1] by blast
    moreover have "c' ! f = c1 ! f \<and> r' ! f = r1 ! f"
      using Cons.IH[OF d(1) True Cons.prems(3,4) rest] .
    ultimately show ?thesis by simp
  next
    case False
    then have h: "h = g" using Cons.prems(2) by simp
    then have "(c1, r1, b1) = (c, r, b)" using s1 Cons.prems(4) by simp
    moreover have "f \<notin> set (concat gs)" using h Cons.prems(3) d by auto
    ultimately show ?thesis
      using for_loop_interp_effect[OF rest] by simp
  qed
qed

lemma strict_sorted_np_where: "sorted_wrt (<) (np_where m)"
  using sorted_np_where distinct_np_where strict_sorted_iff by blast

text \<open>The gap of the loop that holds a given invalid frame.\<close>

lemma gap_of_frame:
  assumes "f < length tv" and "\<not> tv ! f"
  shows "\<exists>a b. a \<le> f \<and> f < b \<and> b \<le> length tv \<and>
           [a..<b] \<in> set (invalid_gaps (np_where (logical_not tv))) \<and>
           (\<forall>g\<in>{a..<b}. \<not> tv ! g) \<and> (a = 0 \<or> tv ! (a - 1)) \<and> (b = length tv \<or> tv ! b)"
proof -
  let ?frs = "np_where (logical_not tv)"
  have mem: "g \<in> set ?frs \<longleftrightarrow> g < length tv \<and> \<not> tv ! g" for g
    by (auto simp: set_np_where nth_logical_not)
  have f: "f \<in> set ?frs" using assms mem by simp
  then have ne: "?frs \<noteq> []" by auto
  have "f \<in> set (concat (invalid_gaps ?frs))"
    using f by (simp only: concat_invalid_gaps)
  then obtain g where g: "g \<in> set (invalid_gaps ?frs)" "f \<in> set g" by auto
  from invalid_gaps_intervals[OF strict_sorted_np_where ne] g
  obtain a b where ab: "a < b" "g = [a..<b]" "a = 0 \<or> a - 1 \<notin> set ?frs" "b \<notin> set ?frs"
    by blast
  have sub: "set g \<subseteq> set ?frs"
  proof -
    have "set g \<subseteq> set (concat (invalid_gaps ?frs))" using g by auto
    then show ?thesis by (simp only: concat_invalid_gaps)
  qed
  have inv: "\<forall>x\<in>{a..<b}. x < length tv \<and> \<not> tv ! x"
    using sub ab mem by auto
  have b: "b \<le> length tv"
  proof -
    have "b - 1 \<in> {a..<b}" using ab by auto
    then have "b - 1 < length tv" using inv by blast
    then show ?thesis using ab by simp
  qed
  have left: "a = 0 \<or> tv ! (a - 1)"
  proof (cases "a = 0")
    case False
    then have "a - 1 \<notin> set ?frs" using ab by simp
    moreover have "a - 1 < length tv" using ab b by simp
    ultimately show ?thesis using mem by blast
  qed simp
  have right: "b = length tv \<or> tv ! b"
    using ab(4) b mem[of b] by auto
  show ?thesis
    using g ab inv left right b by (intro exI[of _ a] exI[of _ b]) auto
qed

lemma np_min_upt: "a < b \<Longrightarrow> np_min [a..<b] = a"
  by (simp add: np_min_def Min_eq_iff)

lemma np_max_upt: "a < b \<Longrightarrow> np_max [a..<b] = b - 1"
  by (auto simp: np_max_def Max_eq_iff)

lemma fill_marker_gap_interp_result:
  assumes tgt: "get_marker_data itf tgt = Inr (Some (tc, tr))"
    and res: "fill_marker_gap_interp spline itf tgt k off minfrs = Inr (upd, cnt, ws)"
  shows "(\<not> upd \<and> ws = [] \<and> cnt = count_nonzero (valid_mask tr)) \<or>
         (upd \<and> (\<exists>i c' r'. ws = [PosWrite i c', ResidWrite i r'] \<and>
             cnt = count_nonzero (valid_mask r') \<and>
             for_loop (interp_body spline k off minfrs (int (length tr)) (valid_mask tr))
               (invalid_gaps (np_where (logical_not (valid_mask tr)))) (tc, tr, False)
               = Inr (c', r', True)))"
proof -
  let ?tv = "valid_mask tr"
  let ?n = "count_nonzero ?tv"
  let ?gs = "invalid_gaps (np_where (logical_not ?tv))"
  have len: "length tc = length tr" "get_num_frames itf = int (length tr)"
    using get_marker_data_length[OF tgt] by simp_all
  show ?thesis
  proof (cases "?n = 0 \<or> int ?n = get_num_frames itf")
    case True
    then show ?thesis
      using res tgt by (auto simp: fill_marker_gap_interp_def Let_def)
  next
    case False
    then obtain s where
      loop: "for_loop (interp_body spline k off minfrs (int (length tr)) ?tv) ?gs (tc, tr, False)
               = Inr s"
      and wb: "write_back itf tgt ?n s = Inr (upd, cnt, ws)"
      using res tgt len
      by (auto simp: fill_marker_gap_interp_def Let_def split: sum.splits)
    obtain c' r' b' where s: "s = (c', r', b')" by (cases s) auto
    show ?thesis
    proof (cases b')
      case True
      have lens: "int (length c') = get_num_frames itf" "int (length r') = get_num_frames itf"
        using for_loop_interp_effect[OF loop[unfolded s]] len by simp_all
      obtain i where "write_back itf tgt ?n (c', r', True)
           = Inr (True, count_nonzero (valid_mask r'), [PosWrite i c', ResidWrite i r'])"
        using write_back_True[OF tgt lens, of ?n] by blast
      then show ?thesis
        using wb s True loop by auto
    next
      case False
      then show ?thesis
        using wb s by (simp add: write_back_False)
    qed
  qed
qed

text \<open>
  Claim C4. In what \<^verbatim>\<open>fill_marker_gap_interp\<close> writes back, a frame whose run of invalid
  frames reaches frame 0 or the last frame keeps its position and residual, whatever \<^verbatim>\<open>k\<close>,
  \<^verbatim>\<open>search_span_offset\<close> and \<^verbatim>\<open>min_needed_frs\<close> are. A gap \<^verbatim>\<open>[s, e]\<close> inside the
  trajectory is left as it is when fewer than \<^verbatim>\<open>min_needed_frs\<close> valid frames lie among the
  \<^verbatim>\<open>ceil((e-s+1)/2) + search_span_offset\<close> frames before \<^verbatim>\<open>s\<close> and after \<^verbatim>\<open>e\<close>. The
  candidate frames computed for a gap are exactly the valid frames of that window within
  the trajectory.
\<close>

theorem interp_gap_rules:
  assumes tgt: "get_marker_data itf tgt = Inr (Some (tc, tr))"
    and res: "fill_marker_gap_interp spline itf tgt k off minfrs = Inr (upd, cnt, ws)"
  shows "(ws = [] \<or>
         (\<exists>i c' r'. ws = [PosWrite i c', ResidWrite i r'] \<and>
            (\<forall>f<length tr. (\<forall>g\<in>{0..f}. isclose (tr ! g) (- 1))
                \<longrightarrow> c' ! f = tc ! f \<and> r' ! f = tr ! f) \<and>
            (\<forall>f<length tr. (\<forall>g\<in>{f..<length tr}. isclose (tr ! g) (- 1))
                \<longrightarrow> c' ! f = tc ! f \<and> r' ! f = tr ! f) \<and>
            (\<forall>s e. 0 < s \<and> s \<le> e \<and> e + 1 < length tr \<and>
                (\<forall>g\<in>{s..e}. isclose (tr ! g) (- 1)) \<and>
                \<not> isclose (tr ! (s - 1)) (- 1) \<and> \<not> isclose (tr ! (e + 1)) (- 1) \<and>
                int (card {g. g < length tr \<and> \<not> isclose (tr ! g) (- 1) \<and>
                      ((int s - (\<lceil>real (e - s + 1) / 2\<rceil> + off) \<le> int g \<and> g < s) \<or>
                       (e < g \<and> int g \<le> int e + (\<lceil>real (e - s + 1) / 2\<rceil> + off)))})
                  < minfrs
                \<longrightarrow> (\<forall>f\<in>{s..e}. c' ! f = tc ! f \<and> r' ! f = tr ! f)))) \<and>
         (\<forall>s e. s \<le> e \<and> e < length tr \<longrightarrow>
         set (np_where (itpl_cand_frs_mask (int (length tr)) (valid_mask tr)
                          (search_span_of [s..<Suc e] off) [s..<Suc e]))
           = {g. g < length tr \<and> \<not> isclose (tr ! g) (- 1) \<and>
                 ((int s - (\<lceil>real (e - s + 1) / 2\<rceil> + off) \<le> int g \<and> g < s) \<or>
                  (e < g \<and> int g \<le> int e + (\<lceil>real (e - s + 1) / 2\<rceil> + off)))})"
proof (intro conjI allI)
  let ?tv = "valid_mask tr"
  let ?N = "length tr"
  let ?frs = "np_where (logical_not ?tv)"
  let ?gs = "invalid_gaps ?frs"
  let ?body = "interp_body spline k off minfrs (int ?N) ?tv"
  have tv: "?tv ! g \<longleftrightarrow> \<not> isclose (tr ! g) (- 1)" if "g < ?N" for g
    using that by (simp add: nth_valid_mask)
  have dist: "distinct (concat ?gs)"
    by (simp only: concat_invalid_gaps distinct_np_where)
  from fill_marker_gap_interp_result[OF tgt res]
  consider "ws = []"
    | i c' r' where "ws = [PosWrite i c', ResidWrite i r']"
        "for_loop ?body ?gs (tc, tr, False) = Inr (c', r', True)"
    by blast
  then show "ws = [] \<or>
         (\<exists>i c' r'. ws = [PosWrite i c', ResidWrite i r'] \<and>
            (\<forall>f<length tr. (\<forall>g\<in>{0..f}. isclose (tr ! g) (- 1))
                \<longrightarrow> c' ! f = tc ! f \<and> r' ! f = tr ! f) \<and>
            (\<forall>f<length tr. (\<forall>g\<in>{f..<length tr}. isclose (tr ! g) (- 1))
                \<longrightarrow> c' ! f = tc ! f \<and> r' ! f = tr ! f) \<and>
            (\<forall>s e. 0 < s \<and> s \<le> e \<and> e + 1 < length tr \<and>
                (\<forall>g\<in>{s..e}. isclose (tr ! g) (- 1)) \<and>
                \<not> isclose (tr ! (s - 1)) (- 1) \<and> \<not> isclose (tr ! (e + 1)) (- 1) \<and>
                int (card {g. g < length tr \<and> \<not> isclose (tr ! g) (- 1) \<and>
                      ((int s - (\<lceil>real (e - s + 1) / 2\<rceil> + off) \<le> int g \<and> g < s) \<or>
                       (e < g \<and> int g \<le> int e + (\<lceil>real (e - s + 1) / 2\<rceil> + off)))})
                  < minfrs
                \<longrightarrow> (\<forall>f\<in>{s..e}. c' ! f = tc ! f \<and> r' ! f = tr ! f)))" (is ?A)
  proof cases
    case 1
    then show ?thesis by simp
  next
    case 2
    note loop = 2(2)
    have skipped: "c' ! f = tc ! f \<and> r' ! f = tr ! f"
      if "[a..<b] \<in> set ?gs" "a \<le> f" "f < b" "\<forall>s. ?body [a..<b] s = Inr s" for a b f
      using for_loop_interp_skipped[OF dist that(1) _ that(4) loop, of f] that(2,3) by simp
    have first: "c' ! f = tc ! f \<and> r' ! f = tr ! f"
      if f: "f < ?N" and all: "\<forall>g\<in>{0..f}. isclose (tr ! g) (- 1)" for f
    proof -
      have "\<not> ?tv ! f" using all f tv by simp
      from gap_of_frame[of f ?tv] f this
      obtain a b where ab: "a \<le> f" "f < b" "[a..<b] \<in> set ?gs" "a = 0 \<or> ?tv ! (a - 1)"
        by auto
      have "a = 0"
      proof (rule ccontr)
        assume "a \<noteq> 0"
        then have "?tv ! (a - 1)" "a - 1 \<le> f" using ab by simp_all
        then show False using all f tv[of "a - 1"] by simp
      qed
      then have "np_min [a..<b] = 0" using ab np_min_upt[of a b] by simp
      then have "\<forall>s. ?body [a..<b] s = Inr s"
        using interp_body_skip by blast
      then show ?thesis using skipped ab by blast
    qed
    have last: "c' ! f = tc ! f \<and> r' ! f = tr ! f"
      if f: "f < ?N" and all: "\<forall>g\<in>{f..<?N}. isclose (tr ! g) (- 1)" for f
    proof -
      have "\<not> ?tv ! f" using all f tv by simp
      from gap_of_frame[of f ?tv] f this
      obtain a b where ab: "a \<le> f" "f < b" "b \<le> ?N" "[a..<b] \<in> set ?gs"
        "b = ?N \<or> ?tv ! b"
        by auto
      have "b = ?N"
      proof (rule ccontr)
        assume "b \<noteq> ?N"
        then have "?tv ! b" "b < ?N" "f \<le> b" using ab by simp_all
        then show False using all tv[of b] by simp
      qed
      then have "int (np_max [a..<b]) = int ?N - 1"
        using ab np_max_upt[of a b] by simp
      then have "\<forall>s. ?body [a..<b] s = Inr s"
        using interp_body_skip by blast
      then show ?thesis using skipped ab by blast
    qed
    have inner: "c' ! f = tc ! f \<and> r' ! f = tr ! f"
      if se: "0 < s" "s \<le> e" "e + 1 < ?N"
        and all: "\<forall>g\<in>{s..e}. isclose (tr ! g) (- 1)"
        and edge: "\<not> isclose (tr ! (s - 1)) (- 1)" "\<not> isclose (tr ! (e + 1)) (- 1)"
        and few: "int (card {g. g < ?N \<and> \<not> isclose (tr ! g) (- 1) \<and>
                      ((int s - (\<lceil>real (e - s + 1) / 2\<rceil> + off) \<le> int g \<and> g < s) \<or>
                       (e < g \<and> int g \<le> int e + (\<lceil>real (e - s + 1) / 2\<rceil> + off)))})
                  < minfrs"
        and f: "f \<in> {s..e}" for s e f
    proof -
      have fN: "f < ?N" using f se by simp
      have "\<not> ?tv ! f" using all f fN tv by simp
      from gap_of_frame[of f ?tv] fN this
      obtain a b where ab: "a \<le> f" "f < b" "b \<le> ?N" "[a..<b] \<in> set ?gs"
        "\<forall>g\<in>{a..<b}. \<not> ?tv ! g" "a = 0 \<or> ?tv ! (a - 1)" "b = ?N \<or> ?tv ! b"
        by auto
      have vs: "?tv ! (s - 1)" "?tv ! (e + 1)"
        using edge se tv[of "s - 1"] tv[of "e + 1"] by simp_all
      have a: "a = s"
      proof (rule ccontr)
        assume ne: "a \<noteq> s"
        show False
        proof (cases "a < s")
          case True
          then have "s - 1 \<in> {a..<b}" using f ab se by auto
          then show False using ab(5) vs by blast
        next
          case False
          then have "a - 1 \<in> {s..e}" "a \<noteq> 0" using ne ab f by auto
          then have "\<not> ?tv ! (a - 1)" using all tv[of "a - 1"] se by auto
          then show False using ab(6) \<open>a \<noteq> 0\<close> by simp
        qed
      qed
      have b: "b = e + 1"
      proof (rule ccontr)
        assume ne: "b \<noteq> e + 1"
        show False
        proof (cases "e + 1 < b")
          case True
          then have "e + 1 \<in> {a..<b}" using f ab by auto
          then show False using ab(5) vs by blast
        next
          case False
          then have "b \<in> {s..e}" "b \<noteq> ?N" using ne ab f se by auto
          then have "\<not> ?tv ! b" using all tv[of b] se by auto
          then show False using ab(7) \<open>b \<noteq> ?N\<close> by simp
        qed
      qed
      have mn: "np_min [a..<b] = s" "np_max [a..<b] = e"
        using np_min_upt[of a b] np_max_upt[of a b] a b se by simp_all
      have sp: "search_span_of [a..<b] off = \<lceil>real (e - s + 1) / 2\<rceil> + off"
        using a b se by (simp add: search_span_of_def Suc_diff_le)
      let ?sp = "\<lceil>real (e - s + 1) / 2\<rceil> + off"
      let ?mask = "itpl_cand_frs_mask (int ?N) ?tv ?sp [a..<b]"
      have "{i. i < length ?mask \<and> ?mask ! i}
              = {g. g < ?N \<and> \<not> isclose (tr ! g) (- 1) \<and>
                      ((int s - ?sp \<le> int g \<and> g < s) \<or> (e < g \<and> int g \<le> int e + ?sp))}"
        using itpl_cand_frs_mask_nth[where tv = ?tv and n = "int ?N" and sp = ?sp
            and gap = "[a..<b]"] mn tv
        by auto
      then have "int (count_nonzero ?mask) < minfrs"
        using few by (simp add: count_nonzero_card)
      then have "\<forall>st. ?body [a..<b] st = Inr st"
        using interp_body_skip[of "[a..<b]" "int ?N" ?tv off minfrs] sp by simp
      then show ?thesis using skipped ab by blast
    qed
    show ?thesis
      using 2(1) first last inner by blast
  qed
  show "s \<le> e \<and> e < length tr \<longrightarrow>
         set (np_where (itpl_cand_frs_mask (int (length tr)) (valid_mask tr)
                          (search_span_of [s..<Suc e] off) [s..<Suc e]))
           = {g. g < length tr \<and> \<not> isclose (tr ! g) (- 1) \<and>
                 ((int s - (\<lceil>real (e - s + 1) / 2\<rceil> + off) \<le> int g \<and> g < s) \<or>
                  (e < g \<and> int g \<le> int e + (\<lceil>real (e - s + 1) / 2\<rceil> + off)))}" for s e
  proof
    assume se: "s \<le> e \<and> e < length tr"
    have mn: "np_min [s..<Suc e] = s" "np_max [s..<Suc e] = e"
      using np_min_upt[of s "Suc e"] np_max_upt[of s "Suc e"] se by simp_all
    have sp: "search_span_of [s..<Suc e] off = \<lceil>real (e - s + 1) / 2\<rceil> + off"
      using se by (simp add: search_span_of_def Suc_diff_le)
    show "set (np_where (itpl_cand_frs_mask (int (length tr)) (valid_mask tr)
                          (search_span_of [s..<Suc e] off) [s..<Suc e]))
           = {g. g < length tr \<and> \<not> isclose (tr ! g) (- 1) \<and>
                 ((int s - (\<lceil>real (e - s + 1) / 2\<rceil> + off) \<le> int g \<and> g < s) \<or>
                  (e < g \<and> int g \<le> int e + (\<lceil>real (e - s + 1) / 2\<rceil> + off)))}"
      unfolding sp set_np_where
      using itpl_cand_frs_mask_nth[where tv = ?tv and n = "int ?N"
            and sp = "\<lceil>real (e - s + 1) / 2\<rceil> + off" and gap = "[s..<Suc e]"] mn tv
      by auto
  qed
qed

theorem interp_gap_rules_witness:
  "fill_marker_gap_interp mean_spline gaps_file ''T'' 3 1 4
     = Inr (True, 6,
            [PosWrite 0 [(0, 0, 0), (2, 4, 0), (3, 6, 0), (4, 8, 0), (5, 10, 0), (6, 12, 0),
                         (0, 0, 0), (8, 16, 0), (0, 0, 0), (0, 0, 0)],
             ResidWrite 0 [- 1, 0, 0, 0, 0, 0, - 1, 0, - 1, - 1]]) \<and>
   isclose ([- 1, 0, 0, - 1, 0, 0, - 1, 0, - 1, - 1] ! 0) (- 1) \<and>
   [- 1, 0, 0, 0, 0, 0, - 1, 0, - 1, - 1] ! 0 = [- 1, 0, 0, - 1, 0, 0, - 1, 0, - 1, - 1 :: real] ! 0 \<and>
   isclose ([- 1, 0, 0, - 1, 0, 0, - 1, 0, - 1, - 1] ! 8) (- 1) \<and>
   isclose ([- 1, 0, 0, - 1, 0, 0, - 1, 0, - 1, - 1] ! 9) (- 1) \<and>
   [- 1, 0, 0, 0, 0, 0, - 1, 0, - 1, - 1] ! 8 = [- 1, 0, 0, - 1, 0, 0, - 1, 0, - 1, - 1 :: real] ! 8"
proof -
  let ?tr = "[- 1, 0, 0, - 1, 0, 0, - 1, 0, - 1, - 1 :: real]"
  have tgt: "get_marker_data gaps_file ''T''
               = Inr (Some ([(0, 0, 0), (2, 4, 0), (3, 6, 0), (0, 0, 0), (5, 10, 0), (6, 12, 0),
                             (0, 0, 0), (8, 16, 0), (0, 0, 0), (0, 0, 0)], ?tr))"
    by code_simp
  have res: "fill_marker_gap_interp mean_spline gaps_file ''T'' 3 1 4
     = Inr (True, 6,
            [PosWrite 0 [(0, 0, 0), (2, 4, 0), (3, 6, 0), (4, 8, 0), (5, 10, 0), (6, 12, 0),
                         (0, 0, 0), (8, 16, 0), (0, 0, 0), (0, 0, 0)],
             ResidWrite 0 [- 1, 0, 0, 0, 0, 0, - 1, 0, - 1, - 1]])"
    by code_simp
  have a: "\<forall>g\<in>{0..0::nat}. isclose (?tr ! g) (- 1)"
    by (simp add: isclose_def)
  have b: "\<forall>g\<in>{8..<10::nat}. isclose (?tr ! g) (- 1)"
  proof
    fix g :: nat assume "g \<in> {8..<10}"
    then have "g = 8 \<or> g = 9" by auto
    then show "isclose (?tr ! g) (- 1)" by (auto simp: isclose_def)
  qed
  have l: "(0::nat) < length ?tr" "(8::nat) < length ?tr" by simp_all
  from interp_gap_rules[OF tgt res] a b l
  have "[- 1, 0, 0, 0, 0, 0, - 1, 0, - 1, - 1] ! 0 = ?tr ! 0"
    and "[- 1, 0, 0, 0, 0, 0, - 1, 0, - 1, - 1] ! 8 = ?tr ! 8"
    by (simp_all del: nth_Cons_0 nth_Cons_numeral)
  then show ?thesis using res by (simp add: isclose_def)
qed

subsection \<open>fill_marker_gap_interp: what the fits read\<close>

lemma for_loop_cong_inv:
  assumes "Inv s"
    and "\<And>x s. x \<in> set xs \<Longrightarrow> Inv s \<Longrightarrow> body x s = body' x s"
    and "\<And>x s s'. x \<in> set xs \<Longrightarrow> Inv s \<Longrightarrow> body x s = Inr s' \<Longrightarrow> Inv s'"
  shows "for_loop body xs s = for_loop body' xs s"
  using assms
proof (induction xs arbitrary: s)
  case Nil
  then show ?case by simp
next
  case (Cons x xs)
  have eq: "body x s = body' x s" using Cons.prems by simp
  show ?case
  proof (cases "body x s")
    case (Inl e)
    then show ?thesis using eq by simp
  next
    case (Inr s1)
    have "for_loop body xs s1 = for_loop body' xs s1"
    proof (rule Cons.IH)
      show "Inv s1" using Cons.prems(3)[OF _ Cons.prems(1) Inr] by simp
      show "\<And>y s. y \<in> set xs \<Longrightarrow> Inv s \<Longrightarrow> body y s = body' y s"
        using Cons.prems(2) by simp
      show "Inv s'" if "y \<in> set xs" "Inv s" "body y s = Inr s'" for y s s'
        using Cons.prems(3)[of y s s'] that by simp
    qed
    then show ?thesis using Inr eq[symmetric] by simp
  qed
qed

lemma interp_body_agree:
  assumes agree: "\<forall>xs ys. set xs \<subseteq> {i. i < length tv \<and> tv ! i} \<and>
             ys \<in> {map (\<lambda>i. x_of (tc ! i)) xs, map (\<lambda>i. y_of (tc ! i)) xs,
                   map (\<lambda>i. z_of (tc ! i)) xs}
             \<longrightarrow> spline k xs ys = spline' k xs ys"
    and inv: "\<forall>i<length tv. tv ! i \<longrightarrow> c ! i = tc ! i"
  shows "interp_body spline k off minfrs (int (length tv)) tv gap (c, r, b)
           = interp_body spline' k off minfrs (int (length tv)) tv gap (c, r, b)"
proof -
  let ?mask = "itpl_cand_frs_mask (int (length tv)) tv (search_span_of gap off) gap"
  let ?cand = "np_where ?mask"
  have sub: "set ?cand \<subseteq> {i. i < length tv \<and> tv ! i}"
    using itpl_cand_frs_mask_nth[where tv = tv and n = "int (length tv)"
        and sp = "search_span_of gap off" and gap = gap]
    by (auto simp: set_np_where)
  have coords: "map (\<lambda>i. c ! i) ?cand = map (\<lambda>i. tc ! i) ?cand"
    using sub inv by auto
  have sp: "spline k ?cand (map x_of (map (\<lambda>i. tc ! i) ?cand))
          = spline' k ?cand (map x_of (map (\<lambda>i. tc ! i) ?cand))"
    "spline k ?cand (map y_of (map (\<lambda>i. tc ! i) ?cand))
          = spline' k ?cand (map y_of (map (\<lambda>i. tc ! i) ?cand))"
    "spline k ?cand (map z_of (map (\<lambda>i. tc ! i) ?cand))
          = spline' k ?cand (map z_of (map (\<lambda>i. tc ! i) ?cand))"
    using agree sub by (simp_all add: comp_def)
  show ?thesis
    unfolding interp_body_def Let_def prod.case coords sp by (rule refl)
qed

text \<open>
  Claim C10. The result of \<^verbatim>\<open>fill_marker_gap_interp\<close> depends on the spline routine only
  through the fits over frames that are valid in the trajectory as read at entry, with the
  coordinates read at entry: two routines that agree on these fits give the same result. So
  no fit of the invocation sees a frame that an earlier gap of the same invocation repaired.
\<close>

theorem interp_fits_entry_data:
  assumes tgt: "get_marker_data itf tgt = Inr (Some (tc, tr))"
    and agree: "\<forall>xs ys. set xs \<subseteq> {i. i < length tr \<and> \<not> isclose (tr ! i) (- 1)} \<and>
             ys \<in> {map (\<lambda>i. x_of (tc ! i)) xs, map (\<lambda>i. y_of (tc ! i)) xs,
                   map (\<lambda>i. z_of (tc ! i)) xs}
             \<longrightarrow> spline k xs ys = spline' k xs ys"
  shows "fill_marker_gap_interp spline itf tgt k off minfrs
           = fill_marker_gap_interp spline' itf tgt k off minfrs"
proof -
  let ?tv = "valid_mask tr"
  let ?N = "length tr"
  let ?frs = "np_where (logical_not ?tv)"
  let ?gs = "invalid_gaps ?frs"
  let ?Inv = "\<lambda>s :: fill_state. \<forall>i<?N. ?tv ! i \<longrightarrow> fst s ! i = tc ! i"
  have n: "get_num_frames itf = int ?N"
    using get_marker_data_length(2)[OF tgt] by simp
  have valid: "{i. i < length ?tv \<and> ?tv ! i} = {i. i < ?N \<and> \<not> isclose (tr ! i) (- 1)}"
    by (auto simp: nth_valid_mask)
  have agree': "\<forall>xs ys. set xs \<subseteq> {i. i < length ?tv \<and> ?tv ! i} \<and>
             ys \<in> {map (\<lambda>i. x_of (tc ! i)) xs, map (\<lambda>i. y_of (tc ! i)) xs,
                   map (\<lambda>i. z_of (tc ! i)) xs}
             \<longrightarrow> spline k xs ys = spline' k xs ys"
    using agree unfolding valid .
  have inval: "\<not> ?tv ! f" if "g \<in> set ?gs" "f \<in> set g" "f < ?N" for g f
  proof -
    have "f \<in> set (concat ?gs)" using that by auto
    then have "f \<in> set ?frs" by (simp only: concat_invalid_gaps)
    then show ?thesis by (auto simp: set_np_where nth_logical_not)
  qed
  have loop: "for_loop (interp_body spline k off minfrs (int ?N) ?tv) ?gs (tc, tr, False)
                = for_loop (interp_body spline' k off minfrs (int ?N) ?tv) ?gs (tc, tr, False)"
  proof (rule for_loop_cong_inv[where Inv = ?Inv])
    show "?Inv (tc, tr, False)" by simp
    show "interp_body spline k off minfrs (int ?N) ?tv g s
            = interp_body spline' k off minfrs (int ?N) ?tv g s"
      if "g \<in> set ?gs" "?Inv s" for g s
    proof -
      obtain c r b where s: "s = (c, r, b)" by (cases s) auto
      show ?thesis
        unfolding s
        using interp_body_agree[where tv = ?tv and tc = tc and spline = spline
            and spline' = spline' and k = k and c = c and off = off and minfrs = minfrs
            and gap = g and r = r and b = b, OF agree'] that(2) s
        by simp
    qed
    show "?Inv s'"
      if g: "g \<in> set ?gs" and inv: "?Inv s"
        and st: "interp_body spline k off minfrs (int ?N) ?tv g s = Inr s'" for g s s'
    proof -
      obtain c r b where s: "s = (c, r, b)" by (cases s) auto
      obtain c' r' b' where s': "s' = (c', r', b')" by (cases s') auto
      have out: "\<forall>f. f \<notin> set g \<longrightarrow> c' ! f = c ! f"
        using interp_body_effect[OF st[unfolded s s']] by blast
      show ?thesis
        unfolding s'
      proof (intro allI impI)
        fix i assume i: "i < ?N" "?tv ! i"
        then have "i \<notin> set g" using inval[OF g] by blast
        then have "c' ! i = c ! i" using out by simp
        then show "fst (c', r', b') ! i = tc ! i" using inv s i by simp
      qed
    qed
  qed
  show ?thesis
    using tgt by (simp add: fill_marker_gap_interp_def Let_def n loop)
qed

theorem interp_fits_entry_data_witness:
  "fill_marker_gap_interp (guarded_spline [- 1, 0, 0, - 1, 0, 0, - 1, 0, - 1, - 1])
       gaps_file ''T'' 2 2 3
     = Inr (True, 7,
            [PosWrite 0 [(0, 0, 0), (2, 4, 0), (3, 6, 0), (4, 8, 0), (5, 10, 0), (6, 12, 0),
                         (19 / 3, 38 / 3, 0), (8, 16, 0), (0, 0, 0), (0, 0, 0)],
             ResidWrite 0 [- 1, 0, 0, 0, 0, 0, 0, 0, - 1, - 1]])"
proof -
  let ?tr = "[- 1, 0, 0, - 1, 0, 0, - 1, 0, - 1, - 1 :: real]"
  let ?tc = "[(0, 0, 0), (2, 4, 0), (3, 6, 0), (0, 0, 0), (5, 10, 0), (6, 12, 0),
              (0, 0, 0), (8, 16, 0), (0, 0, 0), (0, 0, 0) :: vec3]"
  have tgt: "get_marker_data gaps_file ''T'' = Inr (Some (?tc, ?tr))"
    by code_simp
  have res: "fill_marker_gap_interp mean_spline gaps_file ''T'' 2 2 3
     = Inr (True, 7,
            [PosWrite 0 [(0, 0, 0), (2, 4, 0), (3, 6, 0), (4, 8, 0), (5, 10, 0), (6, 12, 0),
                         (19 / 3, 38 / 3, 0), (8, 16, 0), (0, 0, 0), (0, 0, 0)],
             ResidWrite 0 [- 1, 0, 0, 0, 0, 0, 0, 0, - 1, - 1]])"
    by code_simp
  have agree: "\<forall>xs ys. set xs \<subseteq> {i. i < length ?tr \<and> \<not> isclose (?tr ! i) (- 1)} \<and>
             ys \<in> {map (\<lambda>i. x_of (?tc ! i)) xs, map (\<lambda>i. y_of (?tc ! i)) xs,
                   map (\<lambda>i. z_of (?tc ! i)) xs}
             \<longrightarrow> mean_spline 2 xs ys = guarded_spline ?tr 2 xs ys"
    unfolding guarded_spline_def list_all_iff by auto
  show ?thesis
    using interp_fits_entry_data[where spline = mean_spline
        and spline' = "guarded_spline ?tr" and k = 2 and off = 2 and minfrs = 3,
        OF tgt agree] res
    by simp
qed

end
